theory Spec2Isabelle
  imports Main "HOL-Library.Sublist" "HOL-Library.Multiset"
begin

section \<open>Data model (listProvider.ts)\<close>

text \<open>
  Strings are byte lists (UTF-8). An optional field \<open>f?: T\<close> of a TypeScript interface
  is a \<open>T option\<close>, with \<open>None\<close> for \<open>undefined\<close>. The \<open>env\<close> object is an
  association list in insertion order.
\<close>

record UrlItem =
  url :: string
  external :: "bool option"

record ProgramItem =
  path :: string
  args :: "string option"

record CommandData =
  name :: string
  group :: "string option"
  commands :: "string list option"
  autoClose :: "bool option"
  externalTerminal :: "bool option"
  terminalProfile :: "string option"
  runAsAdmin :: "bool option"
  env :: "(string \<times> string) list option"
  urls :: "UrlItem list option"
  url :: "string option"
  programs :: "ProgramItem list option"
  program :: "string option"
  args :: "string list option"

text \<open>
  The two tree item classes, with the arguments of their constructors. What the
  constructors derive from them (label, tooltip, icon) is computed by functions below.
\<close>

datatype TreeItem =
    isGroupItem: GroupItem (groupPath: string) (isExpanded: bool) (commandCount: "nat option")
  | isCommandItem: CommandItem (data: CommandData) (index: nat)

text \<open>The value carried by the drag-and-drop data transfer (\<open>handleDrag\<close>).\<close>

datatype payload =
    Commands "nat list"
  | Group string

text \<open>The fields of class \<open>ListProvider\<close> that the modelled methods read or write.\<close>

record ListProvider =
  commands :: "CommandData list"
  expandedGroups :: "string set"
  searchFilter :: string

text \<open>Calls to the collaborators, in the order the code issues them.\<close>

datatype effect =
    SaveCommands "CommandData list"
  | Refresh
  | ShowErrorMessage string
  | ShowInformationMessage string

section \<open>JavaScript primitives used by the code\<close>

text \<open>Truthiness of a \<open>string | undefined\<close>: \<open>undefined\<close> and the empty string are falsy.\<close>

definition truthy :: "string option \<Rightarrow> bool" where
  "truthy s = (case s of None \<Rightarrow> False | Some v \<Rightarrow> v \<noteq> [])"

definition startsWith :: "string \<Rightarrow> string \<Rightarrow> bool" where
  "startsWith s p = prefix p s"

text \<open>\<open>Array.prototype.findIndex\<close>: the first index whose element satisfies the test, or -1.\<close>

fun findIndex :: "('a \<Rightarrow> bool) \<Rightarrow> 'a list \<Rightarrow> int" where
  "findIndex P [] = - 1"
| "findIndex P (x # xs) =
     (if P x then 0
      else (let r = findIndex P xs in if r = - 1 then - 1 else r + 1))"

text \<open>
  \<open>Array.prototype.splice(start, deleteCount, ...items)\<close>: a negative start counts from
  the end, a start beyond the end is the end. The result is the pair of the removed
  elements and the array after the call.
\<close>

definition spliceStart :: "int \<Rightarrow> nat \<Rightarrow> nat" where
  "spliceStart start len =
     (if start < 0 then nat (max (int len + start) 0) else min (nat start) len)"

definition splice :: "'a list \<Rightarrow> int \<Rightarrow> nat \<Rightarrow> 'a list \<Rightarrow> 'a list \<times> 'a list" where
  "splice xs start deleteCount items =
     (let s = spliceStart start (length xs);
          d = min deleteCount (length xs - s)
      in (take d (drop s xs), take s xs @ items @ drop (s + d) xs))"

text \<open>\<open>Array.prototype.join\<close> on an array of strings.\<close>

fun join :: "string \<Rightarrow> string list \<Rightarrow> string" where
  "join sep [] = []"
| "join sep [x] = x"
| "join sep (x # y # ys) = x @ sep @ join sep (y # ys)"

section \<open>Drag and drop (ListProvider.handleDrag, handleDrop, handleGroupDrop)\<close>

text \<open>
  The membership test the code writes inline wherever it collects a group with its
  subgroups: \<open>c.group === groupPath || (c.group && c.group.startsWith(groupPath + '/'))\<close>.
\<close>

definition isInGroup :: "string \<Rightarrow> CommandData \<Rightarrow> bool" where
  "isInGroup gp c =
     (group c = Some gp \<or>
      (truthy (group c) \<and>
       (case group c of None \<Rightarrow> False | Some g \<Rightarrow> startsWith g (gp @ ''/''))))"

definition handleDrag :: "TreeItem list \<Rightarrow> payload option" where
  "handleDrag source =
     (let commandItems = filter isCommandItem source;
          groupItems = filter isGroupItem source
      in if length commandItems > 0 then Some (Commands (map index commandItems))
         else (case groupItems of
                 g # _ \<Rightarrow> Some (Group (groupPath g))
               | [] \<Rightarrow> None))"

text \<open>
  The three statements both branches of \<open>handleDrop\<close> share: take the source out, lower
  the target index by one when the source was before it, insert at the adjusted index.
\<close>

definition spliceMove :: "'a list \<Rightarrow> nat \<Rightarrow> int \<Rightarrow> 'a list" where
  "spliceMove cmds sourceIndex targetIndex =
     (let (removed, cmds1) = splice cmds (int sourceIndex) 1 [];
          adjustedTarget = (if int sourceIndex < targetIndex then targetIndex - 1 else targetIndex)
      in snd (splice cmds1 adjustedTarget 0 (take 1 removed)))"

text \<open>The loop of \<open>handleGroupDrop\<close> that removes the source indices one by one.\<close>

fun removeLoop :: "nat list \<Rightarrow> 'a list \<Rightarrow> 'a list \<Rightarrow> 'a list \<times> 'a list" where
  "removeLoop [] cmds removed = (removed, cmds)"
| "removeLoop (idx # rest) cmds removed =
     (let (r, cmds1) = splice cmds (int idx) 1 []
      in removeLoop rest cmds1 (take 1 r @ removed))"

definition handleGroupDrop ::
  "ListProvider \<Rightarrow> string \<Rightarrow> TreeItem option \<Rightarrow> ListProvider \<times> effect list" where
  "handleGroupDrop st sourceGroupPath target =
     (let cmds = ListProvider.commands st;
          sourceCommands = filter (isInGroup sourceGroupPath) cmds
      in if length sourceCommands = 0 then (st, [])
         else
           let targetIndex0 =
                 (case target of
                    Some (GroupItem gp _ _) \<Rightarrow> findIndex (isInGroup gp) cmds
                  | Some (CommandItem _ idx) \<Rightarrow> int idx
                  | None \<Rightarrow>
                      (let i = findIndex (\<lambda>c. \<not> truthy (group c)) cmds
                       in if i = - 1 then int (length cmds) else i));
               targetIndex = (if targetIndex0 = - 1 then int (length cmds) else targetIndex0);
               sourceIndices =
                 rev (sort (filter (\<lambda>i. isInGroup sourceGroupPath (cmds ! i)) [0..<length cmds]));
               (removed, cmds1) = removeLoop sourceIndices cmds [];
               sourcesBeforeTarget = length (filter (\<lambda>idx. int idx < targetIndex) sourceIndices);
               adjustedTarget = targetIndex - int sourcesBeforeTarget;
               cmds2 = snd (splice cmds1 adjustedTarget 0 removed)
           in (st\<lparr>ListProvider.commands := cmds2\<rparr>, [SaveCommands cmds2, Refresh]))"

definition handleDrop ::
  "ListProvider \<Rightarrow> TreeItem option \<Rightarrow> payload option \<Rightarrow> ListProvider \<times> effect list" where
  "handleDrop st target transferItem =
     (case transferItem of
        None \<Rightarrow> (st, [])
      | Some (Group sourceGroupPath) \<Rightarrow> handleGroupDrop st sourceGroupPath target
      | Some (Commands sourceIndices) \<Rightarrow>
          (case sourceIndices of
             [] \<Rightarrow> (st, [])
           | sourceIndex # _ \<Rightarrow>
               let cmds = ListProvider.commands st
               in if \<not> sourceIndex < length cmds then (st, [])
                  else
                    let sourceCmd = cmds ! sourceIndex;
                        (targetGroup, targetIndex) =
                          (case target of
                             Some (GroupItem gp _ _) \<Rightarrow>
                               (Some gp,
                                let i = findIndex (isInGroup gp) cmds
                                in if i = - 1 then int (length cmds) else i)
                           | Some (CommandItem d idx) \<Rightarrow> (group d, int idx)
                           | None \<Rightarrow>
                               (None,
                                let i = findIndex (\<lambda>c. \<not> truthy (group c)) cmds
                                in if i = - 1 then int (length cmds) else i));
                        cmds2 =
                          (if group sourceCmd = targetGroup \<and> targetIndex \<noteq> - 1
                           then spliceMove cmds sourceIndex targetIndex
                           else
                             let cmds1 = cmds[sourceIndex := sourceCmd\<lparr>group := targetGroup\<rparr>]
                             in if targetIndex \<noteq> - 1 \<and> targetIndex \<noteq> int sourceIndex
                                then spliceMove cmds1 sourceIndex targetIndex
                                else cmds1)
                    in (st\<lparr>ListProvider.commands := cmds2\<rparr>, [SaveCommands cmds2, Refresh])))"

section \<open>Search filter (ListProvider.matchesSearch)\<close>

text \<open>
  \<open>String.prototype.toLowerCase\<close> lowers every cased letter of Unicode. It is not
  defined here: the functions that call it take it as their first argument
  \<open>toLowerCase\<close>, and what is proved of them holds for every function in its place.
  \<open>lowerAscii\<close> is what it does on a string of ASCII characters, for the examples.
  \<open>String.prototype.includes\<close> is the test for a contiguous substring.
\<close>

definition lowerChar :: "char \<Rightarrow> char" where
  "lowerChar c =
     (let n = (of_char c :: nat) in if 65 \<le> n \<and> n \<le> 90 then char_of (n + 32) else c)"

definition lowerAscii :: "string \<Rightarrow> string" where
  "lowerAscii s = map lowerChar s"

fun includesStr :: "string \<Rightarrow> string \<Rightarrow> bool" where
  "includesStr [] sub = (sub = [])"
| "includesStr (c # s) sub = (prefix sub (c # s) \<or> includesStr s sub)"

definition matchesSearch :: "(string \<Rightarrow> string) \<Rightarrow> ListProvider \<Rightarrow> CommandData \<Rightarrow> bool" where
  "matchesSearch toLowerCase st cmd =
     (if searchFilter st = [] then True
      else if includesStr (toLowerCase (name cmd)) (searchFilter st) then True
      else if (case group cmd of
                 None \<Rightarrow> False
               | Some g \<Rightarrow> g \<noteq> [] \<and> includesStr (toLowerCase g) (searchFilter st)) then True
      else if (case CommandData.commands cmd of
                 None \<Rightarrow> False
               | Some cs \<Rightarrow> list_ex (\<lambda>c. includesStr (toLowerCase c) (searchFilter st)) cs) then True
      else
        let urls = (case urls cmd of
                      Some us \<Rightarrow> us
                    | None \<Rightarrow>
                        (case CommandData.url cmd of
                           None \<Rightarrow> []
                         | Some u \<Rightarrow>
                             if u \<noteq> [] then [\<lparr>UrlItem.url = u, external = None\<rparr>] else []))
        in if list_ex (\<lambda>u. includesStr (toLowerCase (UrlItem.url u)) (searchFilter st)) urls
           then True
           else
             let programs = (case programs cmd of
                               Some ps \<Rightarrow> ps
                             | None \<Rightarrow>
                                 (case program cmd of
                                    None \<Rightarrow> []
                                  | Some p \<Rightarrow>
                                      if p \<noteq> []
                                      then [\<lparr>path = p, ProgramItem.args = None\<rparr>]
                                      else []))
             in if list_ex (\<lambda>p. includesStr (toLowerCase (path p)) (searchFilter st)) programs
                then True
                else False)"

section \<open>Tree items (constructors of GroupItem and CommandItem)\<close>

text \<open>\<open>xs?.length\<close> as a condition: the array is there and is not empty.\<close>

definition hasLength :: "'a list option \<Rightarrow> bool" where
  "hasLength xs = (case xs of None \<Rightarrow> False | Some l \<Rightarrow> length l > 0)"

text \<open>The two symbols of the tooltip lines, U+1F517 and U+2699 U+FE0F, in UTF-8.\<close>

definition linkSymbol :: string where
  "linkSymbol = [CHR 0xF0, CHR 0x9F, CHR 0x94, CHR 0x97]"

definition gearSymbol :: string where
  "gearSymbol = [CHR 0xE2, CHR 0x9A, CHR 0x99, CHR 0xEF, CHR 0xB8, CHR 0x8F]"

text \<open>The URL list and the program list the constructor of \<open>CommandItem\<close> builds.\<close>

definition tooltipUrls :: "CommandData \<Rightarrow> UrlItem list" where
  "tooltipUrls d =
     (case urls d of
        Some us \<Rightarrow> us
      | None \<Rightarrow>
          (case CommandData.url d of
             None \<Rightarrow> []
           | Some u \<Rightarrow> if u \<noteq> [] then [\<lparr>UrlItem.url = u, external = None\<rparr>] else []))"

definition tooltipPrograms :: "CommandData \<Rightarrow> ProgramItem list" where
  "tooltipPrograms d =
     (case programs d of
        Some ps \<Rightarrow> ps
      | None \<Rightarrow>
          (case program d of
             None \<Rightarrow> []
           | Some p \<Rightarrow>
               if p \<noteq> []
               then [\<lparr>path = p,
                      ProgramItem.args = (case CommandData.args d of
                                            Some ts \<Rightarrow> Some (join '' '' ts)
                                          | None \<Rightarrow> None)\<rparr>]
               else []))"

definition tooltip :: "CommandData \<Rightarrow> string" where
  "tooltip d =
     (let tooltipParts1 =
            (if hasLength (CommandData.commands d)
             then (case CommandData.commands d of Some cs \<Rightarrow> cs | None \<Rightarrow> [])
             else []);
          tooltipParts2 =
            map (\<lambda>u. linkSymbol @ '' '' @ UrlItem.url u @
                      (if external u = Some True then '' (external)'' else []))
              (tooltipUrls d);
          tooltipParts3 =
            map (\<lambda>prog.
                   let argsStr = (case ProgramItem.args prog of
                                    None \<Rightarrow> []
                                  | Some a \<Rightarrow> if a \<noteq> [] then '' '' @ a else [])
                   in gearSymbol @ '' '' @ path prog @ argsStr)
              (tooltipPrograms d)
      in join [CHR 0x0A] (tooltipParts1 @ tooltipParts2 @ tooltipParts3))"

definition iconPath :: "CommandData \<Rightarrow> string" where
  "iconPath d =
     (let hasUrls = length (tooltipUrls d) > 0
      in if hasUrls \<and> \<not> hasLength (CommandData.commands d) then ''link-external''
         else if hasLength (CommandData.commands d) \<and> hasUrls then ''run-all''
         else ''terminal'')"

section \<open>Group tree (getGroupCommandCount, getRootItems, getGroupChildren)\<close>

definition isGroupExpanded :: "ListProvider \<Rightarrow> string \<Rightarrow> bool" where
  "isGroupExpanded st gp = (gp \<in> expandedGroups st)"

definition getGroupCommandCount ::
  "ListProvider \<Rightarrow> string \<Rightarrow> CommandData list option \<Rightarrow> nat" where
  "getGroupCommandCount st gp commandsList =
     (let cmds = (case commandsList of Some l \<Rightarrow> l | None \<Rightarrow> ListProvider.commands st)
      in length (filter (isInGroup gp) cmds))"

text \<open>\<open>s.split('/')[0]\<close>: the part of the string before its first slash.\<close>

definition firstSegment :: "string \<Rightarrow> string" where
  "firstSegment s = takeWhile (\<lambda>c. c \<noteq> CHR ''/'') s"

text \<open>
  The first loop of \<open>getRootItems\<close>, with its two accumulators \<open>seenGroups\<close> and
  \<open>topLevelGroups\<close>.
\<close>

fun collectTopLevelGroups ::
  "CommandData list \<Rightarrow> string set \<Rightarrow> string list \<Rightarrow> string list" where
  "collectTopLevelGroups [] seenGroups topLevelGroups = topLevelGroups"
| "collectTopLevelGroups (cmd # rest) seenGroups topLevelGroups =
     (case group cmd of
        None \<Rightarrow> collectTopLevelGroups rest seenGroups topLevelGroups
      | Some g \<Rightarrow>
          if g = [] then collectTopLevelGroups rest seenGroups topLevelGroups
          else
            let topGroup = firstSegment g
            in if topGroup \<notin> seenGroups
               then collectTopLevelGroups rest (insert topGroup seenGroups)
                      (topLevelGroups @ [topGroup])
               else collectTopLevelGroups rest seenGroups topLevelGroups)"

definition getRootItems :: "(string \<Rightarrow> string) \<Rightarrow> ListProvider \<Rightarrow> TreeItem list" where
  "getRootItems toLowerCase st =
     (let filteredCommands =
            (if searchFilter st \<noteq> []
             then filter (matchesSearch toLowerCase st) (ListProvider.commands st)
             else ListProvider.commands st);
          topLevelGroups = collectTopLevelGroups filteredCommands {} [];
          groupItems =
            map (\<lambda>g.
                   let count = getGroupCommandCount st g (Some filteredCommands);
                       isExpanded = (if searchFilter st \<noteq> [] then True else isGroupExpanded st g)
                   in GroupItem g isExpanded (Some count))
              topLevelGroups;
          commandItems =
            map (\<lambda>(idx, cmd). CommandItem cmd idx)
              (filter (\<lambda>(idx, cmd). \<not> truthy (group cmd) \<and> matchesSearch toLowerCase st cmd)
                 (enumerate 0 (ListProvider.commands st)))
      in groupItems @ commandItems)"

text \<open>
  The loop of \<open>getGroupChildren\<close> over the store with its index. The accumulators are
  \<open>items\<close>, \<open>seenSubGroups\<close> and \<open>subGroups\<close>.
\<close>

fun collectChildren ::
  "(string \<Rightarrow> string) \<Rightarrow> ListProvider \<Rightarrow> string \<Rightarrow> (nat \<times> CommandData) list \<Rightarrow>
   TreeItem list \<Rightarrow> string set \<Rightarrow> string list \<Rightarrow> TreeItem list \<times> string list" where
  "collectChildren toLowerCase st gp [] items seenSubGroups subGroups = (items, subGroups)"
| "collectChildren toLowerCase st gp ((idx, cmd) # rest) items seenSubGroups subGroups =
     (case group cmd of
        None \<Rightarrow> collectChildren toLowerCase st gp rest items seenSubGroups subGroups
      | Some g \<Rightarrow>
          if g = [] then collectChildren toLowerCase st gp rest items seenSubGroups subGroups
          else if searchFilter st \<noteq> [] \<and> \<not> matchesSearch toLowerCase st cmd
          then collectChildren toLowerCase st gp rest items seenSubGroups subGroups
          else if g = gp
          then collectChildren toLowerCase st gp rest (items @ [CommandItem cmd idx]) seenSubGroups subGroups
          else if startsWith g (gp @ ''/'')
          then
            let remaining = drop (length (gp @ ''/'')) g;
                nextGroup = firstSegment remaining;
                fullSubGroup = gp @ ''/'' @ nextGroup
            in if fullSubGroup \<notin> seenSubGroups
               then collectChildren toLowerCase st gp rest items (insert fullSubGroup seenSubGroups)
                      (subGroups @ [fullSubGroup])
               else collectChildren toLowerCase st gp rest items seenSubGroups subGroups
          else collectChildren toLowerCase st gp rest items seenSubGroups subGroups)"

definition getGroupChildren ::
  "(string \<Rightarrow> string) \<Rightarrow> ListProvider \<Rightarrow> string \<Rightarrow> TreeItem list" where
  "getGroupChildren toLowerCase st gp =
     (let filteredCommands =
            (if searchFilter st \<noteq> []
             then filter (matchesSearch toLowerCase st) (ListProvider.commands st)
             else ListProvider.commands st);
          (items, subGroups) =
            collectChildren toLowerCase st gp (enumerate 0 (ListProvider.commands st)) [] {} [];
          subGroupItems =
            map (\<lambda>subGroup.
                   let count = getGroupCommandCount st subGroup (Some filteredCommands);
                       isExpanded =
                         (if searchFilter st \<noteq> [] then True else isGroupExpanded st subGroup)
                   in GroupItem subGroup isExpanded (Some count))
              subGroups
      in subGroupItems @ items)"

section \<open>Import (ListProvider.importConfig)\<close>

text \<open>
  The value of the \<open>commands\<close> property of the parsed document: any JSON value, or
  \<open>undefined\<close> when the document has no such property. The elements of an array are
  taken as actions, as the code does without a check.
\<close>

datatype jsvalue =
    Undefined
  | Null
  | JBoolean bool
  | JNumber int
  | JString string
  | JObject
  | JArray "CommandData list"

fun truthyValue :: "jsvalue \<Rightarrow> bool" where
  "truthyValue Undefined = False"
| "truthyValue Null = False"
| "truthyValue (JBoolean b) = b"
| "truthyValue (JNumber n) = (n \<noteq> 0)"
| "truthyValue (JString s) = (s \<noteq> [])"
| "truthyValue JObject = True"
| "truthyValue (JArray xs) = True"

fun isArray :: "jsvalue \<Rightarrow> bool" where
  "isArray (JArray xs) = True"
| "isArray v = False"

text \<open>
  What reading and parsing the chosen file gives: an exception with its text (the file
  cannot be read, is not JSON, or is the JSON value null, whose property cannot be read),
  or a document with the value of its \<open>commands\<close> property.
\<close>

datatype document =
    Throws string
  | Document jsvalue

text \<open>The answer to the quick pick.\<close>

datatype importAction = Merge | Replace

text \<open>A number inside a template string: its decimal digits.\<close>

fun decimal :: "nat \<Rightarrow> string" where
  "decimal n =
     (if n < 10 then [char_of (48 + n)]
      else decimal (n div 10) @ [char_of (48 + n mod 10)])"

definition mergeKey :: "CommandData \<Rightarrow> string" where
  "mergeKey c = (case group c of None \<Rightarrow> [] | Some g \<Rightarrow> g) @ ''::'' @ name c"

text \<open>
  The loop of the merge branch, with the store, \<open>existingKeys\<close> and \<open>added\<close> as
  accumulators.
\<close>

fun mergeLoop ::
  "CommandData list \<Rightarrow> CommandData list \<Rightarrow> string set \<Rightarrow> nat \<Rightarrow> CommandData list \<times> nat" where
  "mergeLoop [] cmds existingKeys added = (cmds, added)"
| "mergeLoop (cmd # rest) cmds existingKeys added =
     (let key = mergeKey cmd
      in if key \<notin> existingKeys
         then mergeLoop rest (cmds @ [cmd]) (insert key existingKeys) (added + 1)
         else mergeLoop rest cmds existingKeys added)"

text \<open>
  \<open>picked\<close> is the document of the file chosen in the open dialog (\<open>None\<close> when the
  dialog is dismissed), \<open>choice\<close> the answer to the quick pick (\<open>None\<close> when it is
  dismissed).
\<close>

definition importConfig ::
  "ListProvider \<Rightarrow> document option \<Rightarrow> importAction option \<Rightarrow> ListProvider \<times> effect list" where
  "importConfig st picked choice =
     (case picked of
        None \<Rightarrow> (st, [])
      | Some (Throws error) \<Rightarrow>
          (st, [ShowErrorMessage (''Failed to import config: '' @ error)])
      | Some (Document importedCommands) \<Rightarrow>
          if \<not> truthyValue importedCommands \<or> \<not> isArray importedCommands
          then (st, [ShowErrorMessage ''Invalid config file: missing commands array''])
          else
            (case importedCommands of
               JArray imported \<Rightarrow>
                 (case choice of
                    None \<Rightarrow> (st, [])
                  | Some Replace \<Rightarrow>
                      (st\<lparr>ListProvider.commands := imported\<rparr>,
                       [SaveCommands imported, Refresh,
                        ShowInformationMessage
                          (''Replaced with '' @ decimal (length imported) @ '' commands'')])
                  | Some Merge \<Rightarrow>
                      let existingKeys = set (map mergeKey (ListProvider.commands st));
                          (cmds, added) =
                            mergeLoop imported (ListProvider.commands st) existingKeys 0
                      in (st\<lparr>ListProvider.commands := cmds\<rparr>,
                          [ShowInformationMessage
                             (''Added '' @ decimal added @ '' new commands ('' @
                              decimal (length imported - added) @ '' duplicates skipped)''),
                           SaveCommands cmds, Refresh]))
             | _ \<Rightarrow> (st, [])))"

section \<open>Execution dispatcher (extension.ts, the handler of cmdrun.run)\<close>

text \<open>
  The calls the handler issues. The branch for an external terminal window spawns a
  process that depends on the terminal profiles found on the machine; it is kept as one
  effect that carries the two joined command strings it is built from.
\<close>

datatype runEffect =
    CreateTerminal string "(string \<times> string) list option"
  | TerminalShow
  | SendText string
  | ExternalTerminal string string
  | Delay nat
  | Exec string
  | SimpleBrowserShow string

definition cmdJoined :: "string list \<Rightarrow> string" where
  "cmdJoined cmds = join '' && '' cmds"

definition psJoined :: "string list \<Rightarrow> string" where
  "psJoined cmds = join ''; '' cmds"

definition runTerminal :: "string \<Rightarrow> CommandData \<Rightarrow> runEffect list" where
  "runTerminal platform cmdData =
     (if hasLength (CommandData.commands cmdData)
      then
        let cmds = (case CommandData.commands cmdData of Some cs \<Rightarrow> cs | None \<Rightarrow> [])
        in if externalTerminal cmdData = Some True
           then [ExternalTerminal (cmdJoined cmds) (psJoined cmds)]
           else
             let internalCommands =
                   (if platform = ''win32'' then psJoined cmds else cmdJoined cmds)
             in [CreateTerminal (name cmdData) (env cmdData), TerminalShow,
                 SendText
                   (if autoClose cmdData = Some True
                    then (if platform = ''win32''
                          then ''try { '' @ psJoined cmds @ '' } finally { exit }''
                          else ''trap '' @ [CHR 0x27] @ ''exit'' @ [CHR 0x27] @ '' INT; '' @
                               cmdJoined cmds @ ''; exit'')
                    else internalCommands)]
      else [])"

text \<open>The URL list of line 188 and the loop that opens its elements.\<close>

definition effectiveUrls :: "CommandData \<Rightarrow> UrlItem list" where
  "effectiveUrls cmdData =
     (case urls cmdData of
        Some us \<Rightarrow> us
      | None \<Rightarrow>
          (case CommandData.url cmdData of
             None \<Rightarrow> []
           | Some u \<Rightarrow> if u \<noteq> [] then [\<lparr>UrlItem.url = u, external = None\<rparr>] else []))"

fun openUrls :: "string \<Rightarrow> nat \<Rightarrow> UrlItem list \<Rightarrow> runEffect list" where
  "openUrls platform i [] = []"
| "openUrls platform i (urlItem # rest) =
     (if i > 0 then [Delay 100] else []) @
     [if external urlItem = Some True
      then Exec (if platform = ''win32''
                 then ''start '' @ [CHR 0x22, CHR 0x22] @ '' '' @
                      [CHR 0x22] @ UrlItem.url urlItem @ [CHR 0x22]
                 else if platform = ''darwin''
                 then ''open '' @ [CHR 0x22] @ UrlItem.url urlItem @ [CHR 0x22]
                 else ''xdg-open '' @ [CHR 0x22] @ UrlItem.url urlItem @ [CHR 0x22])
      else SimpleBrowserShow (UrlItem.url urlItem)] @
     openUrls platform (i + 1) rest"

definition runUrls :: "string \<Rightarrow> CommandData \<Rightarrow> runEffect list" where
  "runUrls platform cmdData = openUrls platform 0 (effectiveUrls cmdData)"

text \<open>
  The program list of lines 213-214. Its elements have the type
  \<open>{ path: string; args?: string | string[] }\<close>: the arguments of a new-style program
  are one string, those of the deprecated pair an array of tokens.
\<close>

datatype programArgs =
    ArgsString string
  | ArgsArray "string list"

type_synonym launchItem = "string \<times> programArgs option"

definition effectivePrograms :: "CommandData \<Rightarrow> launchItem list" where
  "effectivePrograms cmdData =
     (case programs cmdData of
        Some ps \<Rightarrow> map (\<lambda>p. (path p, map_option ArgsString (ProgramItem.args p))) ps
      | None \<Rightarrow>
          (case program cmdData of
             None \<Rightarrow> []
           | Some p \<Rightarrow>
               if p \<noteq> [] then [(p, map_option ArgsArray (CommandData.args cmdData))] else []))"

definition argsStr :: "launchItem \<Rightarrow> string" where
  "argsStr prog =
     (case snd prog of
        Some (ArgsArray ts) \<Rightarrow> join '' '' ts
      | Some (ArgsString s) \<Rightarrow> s
      | None \<Rightarrow> [])"

definition fullCmd :: "launchItem \<Rightarrow> string" where
  "fullCmd prog =
     (let quotedPath =
            (if CHR '' '' \<in> set (fst prog) then [CHR 0x22] @ fst prog @ [CHR 0x22]
             else fst prog)
      in if argsStr prog \<noteq> [] then quotedPath @ '' '' @ argsStr prog else quotedPath)"

definition runPrograms :: "CommandData \<Rightarrow> runEffect list" where
  "runPrograms cmdData = map (\<lambda>prog. Exec (fullCmd prog)) (effectivePrograms cmdData)"

definition run :: "string \<Rightarrow> CommandData \<Rightarrow> runEffect list" where
  "run platform cmdData =
     runTerminal platform cmdData @ runUrls platform cmdData @ runPrograms cmdData"

text \<open>An action that has a name and an optional group and no other field, for examples.\<close>

definition action :: "string \<Rightarrow> string option \<Rightarrow> CommandData" where
  "action n g =
     \<lparr>name = n, group = g, CommandData.commands = None, autoClose = None,
      externalTerminal = None, terminalProfile = None, runAsAdmin = None, env = None,
      urls = None, CommandData.url = None, programs = None, program = None,
      CommandData.args = None\<rparr>"

definition provider :: "CommandData list \<Rightarrow> ListProvider" where
  "provider cmds = \<lparr>ListProvider.commands = cmds, expandedGroups = {}, searchFilter = []\<rparr>"

section \<open>Auxiliary notions for the statements\<close>

text \<open>The indices of the elements that satisfy a test, in increasing order.\<close>

definition groupIndices :: "('a \<Rightarrow> bool) \<Rightarrow> 'a list \<Rightarrow> nat list" where
  "groupIndices P xs = filter (\<lambda>i. P (xs ! i)) [0..<length xs]"

text \<open>A list with the element at one index taken out.\<close>

definition without :: "nat \<Rightarrow> 'a list \<Rightarrow> 'a list" where
  "without i xs = take i xs @ drop (Suc i) xs"

text \<open>The strings an effect list sends to the internal terminal.\<close>

fun sentTexts :: "runEffect list \<Rightarrow> string list" where
  "sentTexts [] = []"
| "sentTexts (SendText s # es) = s # sentTexts es"
| "sentTexts (e # es) = sentTexts es"

section \<open>Example stores and actions\<close>

definition exTree :: ListProvider where
  "exTree =
     \<lparr>ListProvider.commands =
        [action ''build'' (Some ''Dev''), action ''Test'' (Some ''Dev/Backend''),
         action ''deploy'' (Some ''Ops''), action ''hello'' None,
         action ''tests'' (Some ''Dev/Backend/Unit'')],
      expandedGroups = {''Dev''}, searchFilter = ''test''\<rparr>"

definition exSelect :: ListProvider where
  "exSelect = provider [action ''A'' None, action ''B'' None, action ''C'' (Some ''X'')]"

definition exRun :: CommandData where
  "exRun = (action ''serve'' None)\<lparr>CommandData.commands := Some [''npm install'', ''npm start'']\<rparr>"

definition exRunClose :: CommandData where
  "exRunClose = exRun\<lparr>autoClose := Some True\<rparr>"

definition exNew :: CommandData where
  "exNew =
     (action ''open'' None)
       \<lparr>urls := Some [\<lparr>UrlItem.url = ''http://new'', external = Some True\<rparr>],
        programs := Some [\<lparr>path = ''code'', ProgramItem.args = Some ''.''\<rparr>]\<rparr>"

definition exLegacy :: CommandData where
  "exLegacy =
     (action ''open'' None)
       \<lparr>CommandData.url := Some ''http://localhost:3000'',
        program := Some ''C:/Program Files/app.exe'',
        CommandData.args := Some [''--fast'', ''x.sln'']\<rparr>"

definition exBoth :: CommandData where
  "exBoth =
     exNew\<lparr>CommandData.url := Some ''http://localhost:3000'',
           program := Some ''C:/Program Files/app.exe'',
           CommandData.args := Some [''--fast'', ''x.sln'']\<rparr>"

definition exEmptyLegacy :: CommandData where
  "exEmptyLegacy = (action ''open'' None)\<lparr>CommandData.url := Some [], program := Some []\<rparr>"

section \<open>Facts about splice\<close>

lemma splice_remove_one:
  "i < length xs \<Longrightarrow> splice xs (int i) (Suc 0) [] = ([xs ! i], take i xs @ drop (Suc i) xs)"
  by (simp add: splice_def spliceStart_def Let_def min_def take_Suc_conv_app_nth
        Cons_nth_drop_Suc [symmetric])

lemma splice_insert:
  "snd (splice xs start 0 items) =
     take (spliceStart start (length xs)) xs @ items @ drop (spliceStart start (length xs)) xs"
  by (simp add: splice_def Let_def)

lemma spliceStart_le: "spliceStart start n \<le> n"
  by (auto simp: spliceStart_def)

section \<open>Moving a group\<close>

text \<open>
  Removing indices in decreasing order from a list that has a tail none of them reaches
  leaves the tail alone.
\<close>

lemma removeLoop_append:
  "sorted_wrt (>) idxs \<Longrightarrow> \<forall>i\<in>set idxs. i < length xs \<Longrightarrow>
   removeLoop idxs (xs @ ys) acc =
     (fst (removeLoop idxs xs acc), snd (removeLoop idxs xs acc) @ ys)"
proof (induction idxs arbitrary: xs acc)
  case Nil
  then show ?case by simp
next
  case (Cons idx rest)
  let ?xs' = "take idx xs @ drop (Suc idx) xs"
  from Cons.prems have idx: "idx < length xs" by simp
  then have idx': "idx < length (xs @ ys)" by simp
  have len: "length ?xs' = length xs - 1" using idx by simp
  have rest: "\<forall>i\<in>set rest. i < length ?xs'"
    using Cons.prems idx len by fastforce
  have sorted: "sorted_wrt (>) rest" using Cons.prems by simp
  have l: "removeLoop (idx # rest) (xs @ ys) acc = removeLoop rest (?xs' @ ys) (xs ! idx # acc)"
    using idx by (simp add: splice_remove_one [OF idx'] nth_append)
  have r: "removeLoop (idx # rest) xs acc = removeLoop rest ?xs' (xs ! idx # acc)"
    by (simp add: splice_remove_one [OF idx])
  show ?case
    unfolding l r by (rule Cons.IH [OF sorted rest])
qed

lemma groupIndices_snoc:
  "groupIndices P (xs @ [x]) = groupIndices P xs @ (if P x then [length xs] else [])"
proof -
  have "filter (\<lambda>i. P ((xs @ [x]) ! i)) [0..<length xs] = filter (\<lambda>i. P (xs ! i)) [0..<length xs]"
    by (rule filter_cong) (simp_all add: nth_append)
  then show ?thesis by (simp add: groupIndices_def)
qed

lemma groupIndices_bound: "i \<in> set (groupIndices P xs) \<Longrightarrow> i < length xs"
  by (simp add: groupIndices_def)

lemma groupIndices_sorted: "sorted_wrt (<) (groupIndices P xs)"
  unfolding groupIndices_def by (rule sorted_wrt_filter) simp

lemma sort_groupIndices: "sort (groupIndices P xs) = groupIndices P xs"
  using groupIndices_sorted [of P xs]
  by (intro sorted_sort_id) (simp add: strict_sorted_iff)

text \<open>
  The removal loop, run on the indices of the members in decreasing order, splits the
  store into the members and the others, each in store order.
\<close>

lemma removeLoop_partition:
  "removeLoop (rev (groupIndices P xs)) xs acc = (filter P xs @ acc, filter (\<lambda>x. \<not> P x) xs)"
proof (induction xs arbitrary: acc rule: rev_induct)
  case Nil
  then show ?case by (simp add: groupIndices_def)
next
  case (snoc x xs)
  show ?case
  proof (cases "P x")
    case True
    have "length xs < length (xs @ [x])" by simp
    from splice_remove_one [OF this]
    have "splice (xs @ [x]) (int (length xs)) (Suc 0) [] = ([x], xs)" by simp
    with True snoc.IH [of "x # acc"] show ?thesis
      by (simp add: groupIndices_snoc)
  next
    case False
    have s: "sorted_wrt (>) (rev (groupIndices P xs))"
      using groupIndices_sorted [of P xs] by (simp add: sorted_wrt_rev)
    have b: "\<forall>i\<in>set (rev (groupIndices P xs)). i < length xs"
      by (simp add: groupIndices_bound)
    from False removeLoop_append [OF s b, of "[x]" acc] snoc.IH [of acc]
    show ?thesis by (simp add: groupIndices_snoc)
  qed
qed

lemma filter_take_none:
  "\<forall>x\<in>set xs. \<not> P x \<Longrightarrow> filter P (take n xs) = [] \<and> filter P (drop n xs) = []"
  by (auto simp: filter_empty_conv dest: in_set_takeD in_set_dropD)

lemma handleGroupDrop_commands:
  "\<exists>s. ListProvider.commands (fst (handleGroupDrop st p target)) =
     (if filter (isInGroup p) (ListProvider.commands st) = [] then ListProvider.commands st
      else take s (filter (\<lambda>c. \<not> isInGroup p c) (ListProvider.commands st)) @
           filter (isInGroup p) (ListProvider.commands st) @
           drop s (filter (\<lambda>c. \<not> isInGroup p c) (ListProvider.commands st)))"
  using removeLoop_partition [of "isInGroup p" "ListProvider.commands st" "[]"]
  by (auto simp: handleGroupDrop_def Let_def sort_groupIndices groupIndices_def [symmetric]
        splice_insert split: prod.splits)

text \<open>
  C2. In the store [A(group G), B(group G/Sub), C(no group)] a drop of group G on empty
  space is expected to move the block [A, B] to after C. The code looks for the first
  ungrouped action, C at index 2, takes A and B out, lowers the index by two and puts
  the block back at index 0: the order stays [A, B, C].
\<close>

theorem group_move_to_root_keeps_order:
  "handleDrop
     (provider [action ''A'' (Some ''G''), action ''B'' (Some ''G/Sub''), action ''C'' None])
     None (Some (Group ''G'')) =
   (provider [action ''A'' (Some ''G''), action ''B'' (Some ''G/Sub''), action ''C'' None],
    [SaveCommands [action ''A'' (Some ''G''), action ''B'' (Some ''G/Sub''), action ''C'' None],
     Refresh])"
  by code_simp

text \<open>
  C4. A group drop changes no action: the members of the moved group are, after the drop,
  the same actions with the same fields (so the same group strings) in the same order,
  the actions outside the group are the same actions in the same order, and the store as
  a whole holds the same actions as before.
\<close>

theorem handleGroupDrop_frame:
  "filter (isInGroup p) (ListProvider.commands (fst (handleDrop st target (Some (Group p))))) =
     filter (isInGroup p) (ListProvider.commands st) \<and>
   filter (\<lambda>c. \<not> isInGroup p c)
     (ListProvider.commands (fst (handleDrop st target (Some (Group p))))) =
     filter (\<lambda>c. \<not> isInGroup p c) (ListProvider.commands st) \<and>
   mset (ListProvider.commands (fst (handleDrop st target (Some (Group p))))) =
     mset (ListProvider.commands st)"
proof -
  let ?cmds = "ListProvider.commands st"
  let ?in = "filter (isInGroup p) ?cmds"
  let ?out = "filter (\<lambda>c. \<not> isInGroup p c) ?cmds"
  have d: "handleDrop st target (Some (Group p)) = handleGroupDrop st p target"
    by (simp add: handleDrop_def)
  obtain s where r: "ListProvider.commands (fst (handleGroupDrop st p target)) =
     (if ?in = [] then ?cmds else take s ?out @ ?in @ drop s ?out)"
    using handleGroupDrop_commands by blast
  have none: "filter (isInGroup p) (take s ?out) = [] \<and> filter (isInGroup p) (drop s ?out) = []"
    by (rule filter_take_none) simp
  have all: "filter (\<lambda>c. \<not> isInGroup p c) (take s ?out) = take s ?out \<and>
             filter (\<lambda>c. \<not> isInGroup p c) (drop s ?out) = drop s ?out"
    by (auto simp: filter_id_conv dest: in_set_takeD in_set_dropD)
  have m: "mset (take s ?out @ ?in @ drop s ?out) = mset ?cmds"
  proof -
    have a: "mset (take s ?out) + mset (drop s ?out) = mset ?out"
      by (metis append_take_drop_id mset_append)
    have b: "mset ?in + mset ?out = mset ?cmds"
      by (induction ?cmds) simp_all
    have "mset (take s ?out @ ?in @ drop s ?out) =
          mset ?in + (mset (take s ?out) + mset (drop s ?out))"
      by (simp only: mset_append ac_simps)
    then show ?thesis by (simp only: a b)
  qed
  show ?thesis
    using none all m by (simp add: d r)
qed

section \<open>Moving one action\<close>

lemma spliceMove_shape:
  assumes "i < length cmds"
  shows "\<exists>j\<le>length (without i cmds).
           spliceMove cmds i t = take j (without i cmds) @ [cmds ! i] @ drop j (without i cmds)"
proof -
  let ?adj = "if int i < t then t - 1 else t"
  let ?j = "spliceStart ?adj (length (without i cmds))"
  have "spliceMove cmds i t = take ?j (without i cmds) @ [cmds ! i] @ drop ?j (without i cmds)"
    by (simp add: spliceMove_def splice_remove_one [OF assms] splice_insert without_def Let_def)
  then show ?thesis using spliceStart_le by blast
qed

lemma inserted_shape:
  assumes "j \<le> length r" and "ys = take j r @ [x] @ drop j r"
  shows "j < length ys \<and> ys ! j = x \<and> without j ys = r"
  using assms by (simp add: without_def nth_append min_def)

lemma without_update: "without i (xs[i := x]) = without i xs"
  by (simp add: without_def)

lemma update_shape:
  assumes "i < length xs"
  shows "i < length (xs[i := x]) \<and> xs[i := x] ! i = x \<and> without i (xs[i := x]) = without i xs"
  using assms by (simp add: without_update)

text \<open>
  Whatever the target, a drop of the action at a valid index leaves a store that is the
  old store without that action, with the action (its group possibly reassigned) put in
  at some index.
\<close>

lemma handleDrop_commands_shape:
  assumes "i < length (ListProvider.commands st)"
  shows "\<exists>j g. j < length (ListProvider.commands (fst (handleDrop st target (Some (Commands (i # rest)))))) \<and>
               ListProvider.commands (fst (handleDrop st target (Some (Commands (i # rest))))) ! j =
                 (ListProvider.commands st ! i)\<lparr>group := g\<rparr> \<and>
               without j (ListProvider.commands (fst (handleDrop st target (Some (Commands (i # rest)))))) =
                 without i (ListProvider.commands st)"
proof -
  let ?cmds = "ListProvider.commands st"
  let ?src = "?cmds ! i"
  obtain tg ti where tgt: "(case target of
       Some (GroupItem gp _ _) \<Rightarrow>
         (Some gp, let k = findIndex (isInGroup gp) ?cmds in if k = - 1 then int (length ?cmds) else k)
     | Some (CommandItem d idx) \<Rightarrow> (group d, int idx)
     | None \<Rightarrow>
         (None, let k = findIndex (\<lambda>c. \<not> truthy (group c)) ?cmds
                in if k = - 1 then int (length ?cmds) else k)) = (tg, ti)"
    by (cases "(case target of
       Some (GroupItem gp _ _) \<Rightarrow>
         (Some gp, let k = findIndex (isInGroup gp) ?cmds in if k = - 1 then int (length ?cmds) else k)
     | Some (CommandItem d idx) \<Rightarrow> (group d, int idx)
     | None \<Rightarrow>
         (None, let k = findIndex (\<lambda>c. \<not> truthy (group c)) ?cmds
                in if k = - 1 then int (length ?cmds) else k))") blast
  let ?res = "ListProvider.commands (fst (handleDrop st target (Some (Commands (i # rest)))))"
  let ?upd = "?cmds[i := ?src\<lparr>group := tg\<rparr>]"
  have res: "?res = (if group ?src = tg \<and> ti \<noteq> - 1 then spliceMove ?cmds i ti
                     else if ti \<noteq> - 1 \<and> ti \<noteq> int i then spliceMove ?upd i ti else ?upd)"
    using assms by (simp add: handleDrop_def Let_def tgt)
  have iu: "i < length ?upd" using assms by simp
  consider (same) "group ?src = tg \<and> ti \<noteq> - 1"
    | (move) "\<not> (group ?src = tg \<and> ti \<noteq> - 1)" "ti \<noteq> - 1 \<and> ti \<noteq> int i"
    | (stay) "\<not> (group ?src = tg \<and> ti \<noteq> - 1)" "\<not> (ti \<noteq> - 1 \<and> ti \<noteq> int i)"
    by blast
  then show ?thesis
  proof cases
    case same
    from spliceMove_shape [OF assms, of ti] obtain j where
      j: "j \<le> length (without i ?cmds)"
         "spliceMove ?cmds i ti = take j (without i ?cmds) @ [?src] @ drop j (without i ?cmds)"
      by blast
    from inserted_shape [OF j] same res
    have "j < length ?res \<and> ?res ! j = ?src\<lparr>group := group ?src\<rparr> \<and>
          without j ?res = without i ?cmds"
      by simp
    then show ?thesis by blast
  next
    case move
    from spliceMove_shape [OF iu, of ti] obtain j where
      j: "j \<le> length (without i ?upd)"
         "spliceMove ?upd i ti = take j (without i ?upd) @ [?upd ! i] @ drop j (without i ?upd)"
      by blast
    from inserted_shape [OF j] move res assms
    have "j < length ?res \<and> ?res ! j = ?src\<lparr>group := tg\<rparr> \<and> without j ?res = without i ?cmds"
      by (simp add: without_update)
    then show ?thesis by blast
  next
    case stay
    with res update_shape [OF assms, of "?src\<lparr>group := tg\<rparr>"]
    have "i < length ?res \<and> ?res ! i = ?src\<lparr>group := tg\<rparr> \<and> without i ?res = without i ?cmds"
      by auto
    then show ?thesis by blast
  qed
qed

lemma handleDrag_commands:
  "filter isCommandItem source = first # others \<Longrightarrow>
   handleDrag source = Some (Commands (index first # map index others))"
  by (simp add: handleDrag_def)

lemma handleDrop_head:
  "handleDrop st target (Some (Commands (i # rest))) = handleDrop st target (Some (Commands [i]))"
  by (simp add: handleDrop_def)

text \<open>
  C1, as stated: in the store [A(no group), B(group X), C(group X)] the drop of A on the
  command item B gives [B, A, C] with A in group X. The code does not give that store.
\<close>

theorem simple_move_counterexample:
  "ListProvider.commands
     (fst (handleDrop
        (provider [action ''A'' None, action ''B'' (Some ''X''), action ''C'' (Some ''X'')])
        (Some (CommandItem (action ''B'' (Some ''X'')) 1)) (Some (Commands [0])))) \<noteq>
   [action ''B'' (Some ''X''), action ''A'' (Some ''X''), action ''C'' (Some ''X'')]"
  by code_simp

text \<open>
  C1, amended: the drop of A on the command item B reassigns the group of A to X and puts
  A immediately before B (A was before the target, so the target index 1 is lowered to
  0): the store becomes [A(group X), B(group X), C(group X)], and it is saved and the
  view refreshed.
\<close>

theorem simple_move:
  "handleDrop
     (provider [action ''A'' None, action ''B'' (Some ''X''), action ''C'' (Some ''X'')])
     (Some (CommandItem (action ''B'' (Some ''X'')) 1)) (Some (Commands [0])) =
   (provider [action ''A'' (Some ''X''), action ''B'' (Some ''X''), action ''C'' (Some ''X'')],
    [SaveCommands [action ''A'' (Some ''X''), action ''B'' (Some ''X''), action ''C'' (Some ''X'')],
     Refresh])"
  by code_simp

text \<open>
  C3. In the store [U1(no group), U2(no group), G(group X)] a drop of G on empty space is
  expected to clear the group of G and to put G after the last ungrouped action, U2. The
  code clears the group and puts G at the index of the first ungrouped action, U1: the
  store becomes [G, U1, U2].
\<close>

theorem root_drop_goes_before_first_ungrouped:
  "ListProvider.commands
     (fst (handleDrop
        (provider [action ''U1'' None, action ''U2'' None, action ''G'' (Some ''X'')])
        None (Some (Commands [2])))) =
   [action ''G'' None, action ''U1'' None, action ''U2'' None]"
  by code_simp

lemma without_length: "i < length xs \<Longrightarrow> length (without i xs) = length xs - 1"
  by (simp add: without_def)

lemma without_nth:
  "i < length xs \<Longrightarrow> m < length xs - 1 \<Longrightarrow>
   without i xs ! m = (if m < i then xs ! m else xs ! Suc m)"
  by (auto simp: without_def nth_append min_def)

text \<open>
  When two lists agree after one element is taken out of each, every other element of
  the first is found in the second at its own index or at a neighbouring one.
\<close>

lemma shift_by_one:
  assumes i: "i < length xs" and j: "j < length ys"
      and w: "without j ys = without i xs" and k: "k < length xs" "k \<noteq> i"
  shows "length ys = length xs \<and>
         (\<exists>k'. k' < length ys \<and> (k' = k \<or> Suc k' = k \<or> k' = Suc k) \<and> ys ! k' = xs ! k)"
proof -
  have "length ys - 1 = length xs - 1"
    using without_length [OF i] without_length [OF j] w by simp
  with i j have len: "length ys = length xs" by simp
  define m where "m = (if k < i then k else k - 1)"
  have m: "m < length xs - 1" using i k by (auto simp: m_def)
  have "without i xs ! m = (if m < i then xs ! m else xs ! Suc m)"
    by (rule without_nth [OF i m])
  then have "xs ! k = without i xs ! m"
    using k i by (auto simp: m_def)
  also have "\<dots> = without j ys ! m" by (simp add: w)
  also have "\<dots> = (if m < j then ys ! m else ys ! Suc m)"
    using m len by (simp add: without_nth [OF j])
  finally have e: "xs ! k = (if m < j then ys ! m else ys ! Suc m)" .
  show ?thesis
  proof (cases "m < j")
    case True
    with e m len k have "m < length ys \<and> (m = k \<or> Suc m = k \<or> m = Suc k) \<and> ys ! m = xs ! k"
      by (auto simp: m_def)
    with len show ?thesis by blast
  next
    case False
    with e m len k
    have "Suc m < length ys \<and> (Suc m = k \<or> Suc (Suc m) = k \<or> Suc m = Suc k) \<and>
          ys ! Suc m = xs ! k"
      by (auto simp: m_def)
    with len show ?thesis by blast
  qed
qed

text \<open>
  C10, as stated: when several command items are dragged, every dragged action other
  than the first keeps its position. In the store [A, B, C(group X)] with A and B
  dragged onto C, the action B is at index 1 before the drop and at index 0 after it.
\<close>

theorem multi_select_position_counterexample:
  "ListProvider.commands exSelect ! 1 = action ''B'' None \<and>
   ListProvider.commands
     (fst (handleDrop exSelect (Some (CommandItem (action ''C'' (Some ''X'')) 2))
        (handleDrag [CommandItem (action ''A'' None) 0, CommandItem (action ''B'' None) 1]))) ! 1 \<noteq>
     action ''B'' None \<and>
   ListProvider.commands
     (fst (handleDrop exSelect (Some (CommandItem (action ''C'' (Some ''X'')) 2))
        (handleDrag [CommandItem (action ''A'' None) 0, CommandItem (action ''B'' None) 1]))) ! 0 =
     action ''B'' None"
  by code_simp

text \<open>
  C10, amended: when the dragged items hold several command items, the drop is the drop
  of the first of them alone. When its index is in the store, the store after the drop
  is the store before it with this one action taken out and put back at some index, its
  group possibly reassigned. The store keeps its length, and every other action, dragged
  or not, keeps all its fields (so its group), keeps its place in the order of the
  others, and is found at its old index or at the index just before or just after it.
\<close>

theorem multi_select_moves_first_only:
  assumes "filter isCommandItem source = first # others"
      and "index first < length (ListProvider.commands st)"
  shows "handleDrop st target (handleDrag source) =
           handleDrop st target (Some (Commands [index first])) \<and>
         (\<exists>j g. j < length (ListProvider.commands (fst (handleDrop st target (handleDrag source)))) \<and>
                ListProvider.commands (fst (handleDrop st target (handleDrag source))) ! j =
                  (ListProvider.commands st ! index first)\<lparr>group := g\<rparr> \<and>
                without j (ListProvider.commands (fst (handleDrop st target (handleDrag source)))) =
                  without (index first) (ListProvider.commands st)) \<and>
         length (ListProvider.commands (fst (handleDrop st target (handleDrag source)))) =
           length (ListProvider.commands st) \<and>
         (\<forall>k<length (ListProvider.commands st). k \<noteq> index first \<longrightarrow>
            (\<exists>k'. k' < length (ListProvider.commands (fst (handleDrop st target (handleDrag source)))) \<and>
                  (k' = k \<or> Suc k' = k \<or> k' = Suc k) \<and>
                  ListProvider.commands (fst (handleDrop st target (handleDrag source))) ! k' =
                    ListProvider.commands st ! k))"
proof -
  let ?cmds = "ListProvider.commands st"
  let ?res = "ListProvider.commands (fst (handleDrop st target (handleDrag source)))"
  have d: "handleDrag source = Some (Commands (index first # map index others))"
    by (rule handleDrag_commands [OF assms(1)])
  have h: "handleDrop st target (handleDrag source) =
           handleDrop st target (Some (Commands [index first]))"
    unfolding d by (rule handleDrop_head)
  from handleDrop_commands_shape [OF assms(2), of target "map index others"]
  obtain j g where j: "j < length ?res" "?res ! j = (?cmds ! index first)\<lparr>group := g\<rparr>"
      "without j ?res = without (index first) ?cmds"
    unfolding d by blast
  have s: "\<And>k. k < length ?cmds \<Longrightarrow> k \<noteq> index first \<Longrightarrow>
             length ?res = length ?cmds \<and>
             (\<exists>k'. k' < length ?res \<and> (k' = k \<or> Suc k' = k \<or> k' = Suc k) \<and>
                   ?res ! k' = ?cmds ! k)"
    by (rule shift_by_one [OF assms(2) j(1) j(3)])
  have "length ?res - 1 = length ?cmds - 1"
    using without_length [OF assms(2)] without_length [OF j(1)] j(3) by simp
  with j(1) assms(2) have len: "length ?res = length ?cmds" by simp
  show ?thesis
    using h j len s by blast
qed

theorem multi_select_moves_first_only_witness:
  "handleDrop exSelect (Some (CommandItem (action ''C'' (Some ''X'')) 2))
     (handleDrag [CommandItem (action ''A'' None) 0, CommandItem (action ''B'' None) 1]) =
   handleDrop exSelect (Some (CommandItem (action ''C'' (Some ''X'')) 2)) (Some (Commands [0])) \<and>
   ListProvider.commands
     (fst (handleDrop exSelect (Some (CommandItem (action ''C'' (Some ''X'')) 2))
        (handleDrag [CommandItem (action ''A'' None) 0, CommandItem (action ''B'' None) 1]))) =
     [action ''B'' None, action ''A'' (Some ''X''), action ''C'' (Some ''X'')]"
proof -
  have f: "filter isCommandItem
             [CommandItem (action ''A'' None) 0, CommandItem (action ''B'' None) 1] =
           CommandItem (action ''A'' None) 0 # [CommandItem (action ''B'' None) 1]"
    by simp
  have i: "index (CommandItem (action ''A'' None) 0) < length (ListProvider.commands exSelect)"
    by (simp add: exSelect_def provider_def)
  have r: "ListProvider.commands
     (fst (handleDrop exSelect (Some (CommandItem (action ''C'' (Some ''X'')) 2))
        (Some (Commands [0])))) =
     [action ''B'' None, action ''A'' (Some ''X''), action ''C'' (Some ''X'')]"
    by code_simp
  from multi_select_moves_first_only [OF f i, of "Some (CommandItem (action ''C'' (Some ''X'')) 2)"]
  show ?thesis using r by simp
qed

section \<open>Group counts\<close>

lemma isInGroup_iff:
  "isInGroup p c \<longleftrightarrow> (\<exists>g. group c = Some g \<and> (g = p \<or> prefix (p @ ''/'') g))"
  by (cases "group c") (auto simp: isInGroup_def truthy_def startsWith_def)

lemma filteredCommands_eq:
  "(if searchFilter st \<noteq> [] then filter (matchesSearch toLowerCase st) cmds else cmds) =
   filter (matchesSearch toLowerCase st) cmds"
  by (simp add: matchesSearch_def)

lemma getGroupCommandCount_filtered:
  "getGroupCommandCount st g (Some (filter (matchesSearch toLowerCase st) cmds)) =
   length (filter (\<lambda>c. matchesSearch toLowerCase st c \<and> isInGroup g c) cmds)"
  by (simp add: getGroupCommandCount_def conj_commute)

lemma collectChildren_items:
  "\<forall>x\<in>set items. isCommandItem x \<Longrightarrow>
   \<forall>x\<in>set (fst (collectChildren toLowerCase st gp xs items seen subs)). isCommandItem x"
  by (induction toLowerCase st gp xs items seen subs rule: collectChildren.induct)
     (auto simp: Let_def split: option.splits)

lemma getRootItems_groups:
  "GroupItem p e n \<in> set (getRootItems toLowerCase st) \<Longrightarrow>
   n = Some (length (filter (\<lambda>c. matchesSearch toLowerCase st c \<and> isInGroup p c)
                       (ListProvider.commands st)))"
  unfolding getRootItems_def filteredCommands_eq Let_def
  by (auto simp: getGroupCommandCount_filtered)

lemma getGroupChildren_groups:
  assumes "GroupItem p e n \<in> set (getGroupChildren toLowerCase st gp)"
  shows "n = Some (length (filter (\<lambda>c. matchesSearch toLowerCase st c \<and> isInGroup p c)
                             (ListProvider.commands st)))"
proof -
  obtain items subGroups where
    c: "collectChildren toLowerCase st gp (enumerate 0 (ListProvider.commands st)) [] {} [] =
          (items, subGroups)"
    by (cases "collectChildren toLowerCase st gp (enumerate 0 (ListProvider.commands st)) [] {} []") blast
  have "\<forall>x\<in>set items. isCommandItem x"
    using collectChildren_items
            [where items = "[]" and toLowerCase = toLowerCase and st = st and gp = gp
               and xs = "enumerate 0 (ListProvider.commands st)" and seen = "{}" and subs = "[]"] c
    by simp
  then have "GroupItem p e n \<notin> set items" by auto
  with assms show ?thesis
    unfolding getGroupChildren_def filteredCommands_eq Let_def c
    by (auto simp: getGroupCommandCount_filtered)
qed

text \<open>
  C5. Every group item of the root level or of the children of a group carries as its
  count the number of actions of the store that match the search filter and whose group
  is the path of the item or starts with that path and a slash. With an empty filter
  every action matches.
\<close>

theorem group_count:
  assumes "GroupItem p e n \<in> set (getRootItems toLowerCase st) \<or>
           GroupItem p e n \<in> set (getGroupChildren toLowerCase st gp)"
  shows "n = Some (length (filter
                     (\<lambda>c. matchesSearch toLowerCase st c \<and>
                          (\<exists>g. group c = Some g \<and> (g = p \<or> prefix (p @ ''/'') g)))
                     (ListProvider.commands st)))"
proof -
  have "(\<lambda>c. matchesSearch toLowerCase st c \<and> isInGroup p c) =
        (\<lambda>c. matchesSearch toLowerCase st c \<and> (\<exists>g. group c = Some g \<and> (g = p \<or> prefix (p @ ''/'') g)))"
    by (rule ext) (simp add: isInGroup_iff)
  with assms getRootItems_groups [of p e n toLowerCase st]
       getGroupChildren_groups [of p e n toLowerCase st gp]
  show ?thesis by auto
qed

theorem group_count_witness:
  "GroupItem ''Dev'' True (Some 2) \<in> set (getRootItems lowerAscii exTree) \<and>
   GroupItem ''Dev/Backend/Unit'' True (Some 1) \<in> set (getGroupChildren lowerAscii exTree ''Dev/Backend'') \<and>
   length (filter
             (\<lambda>c. matchesSearch lowerAscii exTree c \<and>
                  (\<exists>g. group c = Some g \<and> (g = ''Dev'' \<or> prefix (''Dev'' @ ''/'') g)))
             (ListProvider.commands exTree)) = 2 \<and>
   length (filter
             (\<lambda>c. matchesSearch lowerAscii exTree c \<and>
                  (\<exists>g. group c = Some g \<and>
                       (g = ''Dev/Backend/Unit'' \<or> prefix (''Dev/Backend/Unit'' @ ''/'') g)))
             (ListProvider.commands exTree)) = 1"
proof -
  have r: "GroupItem ''Dev'' True (Some 2) \<in> set (getRootItems lowerAscii exTree)"
    by code_simp
  have c: "GroupItem ''Dev/Backend/Unit'' True (Some 1) \<in>
             set (getGroupChildren lowerAscii exTree ''Dev/Backend'')"
    by code_simp
  from group_count [of "''Dev''" True "Some 2" lowerAscii exTree "''Dev''"] r
       group_count [of "''Dev/Backend/Unit''" True "Some 1" lowerAscii exTree "''Dev/Backend''"] c
  show ?thesis by simp
qed

section \<open>Import\<close>

text \<open>
  C8. When the \<open>commands\<close> property of the imported document is missing or is not an
  array, the import shows the error message and does nothing else: the provider is the
  one before the import and nothing is saved, whatever the user would have chosen.
\<close>

theorem import_rejected:
  assumes "v = Undefined \<or> \<not> isArray v"
  shows "importConfig st (Some (Document v)) choice =
           (st, [ShowErrorMessage ''Invalid config file: missing commands array''])"
  using assms by (cases v) (auto simp: importConfig_def)

theorem import_rejected_witness:
  "importConfig (provider [action ''a'' None]) (Some (Document Undefined)) (Some Replace) =
     (provider [action ''a'' None],
      [ShowErrorMessage ''Invalid config file: missing commands array'']) \<and>
   importConfig (provider [action ''a'' None]) (Some (Document (JString ''x''))) (Some Merge) =
     (provider [action ''a'' None],
      [ShowErrorMessage ''Invalid config file: missing commands array''])"
proof -
  have 1: "Undefined = Undefined \<or> \<not> isArray Undefined" by simp
  have 2: "JString ''x'' = Undefined \<or> \<not> isArray (JString ''x'')" by simp
  show ?thesis
    using import_rejected [OF 1, of "provider [action ''a'' None]" "Some Replace"]
          import_rejected [OF 2, of "provider [action ''a'' None]" "Some Merge"]
    by simp
qed

section \<open>Execution dispatcher\<close>

text \<open>
  C6, as stated: with an internal terminal the string sent on win32 is the list joined
  with a semicolon and a space. With \<open>autoClose\<close> set the string sent is another one.
\<close>

theorem internal_terminal_text_counterexample:
  "sentTexts (runTerminal ''win32'' exRunClose) \<noteq> [psJoined [''npm install'', ''npm start'']]"
  by code_simp

text \<open>
  C6, amended: for a non-empty command list the two forms are the list joined with
  \<open>" && "\<close> and with \<open>"; "\<close>. With an internal terminal exactly one string is sent.
  Without \<open>autoClose\<close> it is the semicolon form on win32 and the \<open>&&\<close> form on every
  other platform. With \<open>autoClose\<close> it is that form inside a wrapper:
  \<open>try { ... } finally { exit }\<close> on win32, \<open>trap 'exit' INT; ...; exit\<close> elsewhere.
\<close>

theorem internal_terminal_text:
  assumes "CommandData.commands cmdData = Some cmds" and "cmds \<noteq> []"
      and "externalTerminal cmdData \<noteq> Some True"
  shows "cmdJoined cmds = join '' && '' cmds \<and> psJoined cmds = join ''; '' cmds \<and>
         sentTexts (runTerminal platform cmdData) =
           [if autoClose cmdData = Some True
            then (if platform = ''win32''
                  then ''try { '' @ psJoined cmds @ '' } finally { exit }''
                  else ''trap '' @ [CHR 0x27] @ ''exit'' @ [CHR 0x27] @ '' INT; '' @
                       cmdJoined cmds @ ''; exit'')
            else (if platform = ''win32'' then psJoined cmds else cmdJoined cmds)]"
  using assms by (simp add: runTerminal_def hasLength_def cmdJoined_def psJoined_def Let_def)

theorem internal_terminal_text_witness:
  "sentTexts (runTerminal ''win32'' exRun) = [''npm install; npm start''] \<and>
   sentTexts (runTerminal ''linux'' exRun) = [''npm install && npm start''] \<and>
   sentTexts (runTerminal ''win32'' exRunClose) =
     [''try { npm install; npm start } finally { exit }''] \<and>
   sentTexts (runTerminal ''darwin'' exRunClose) =
     [''trap '' @ [CHR 0x27] @ ''exit'' @ [CHR 0x27] @ '' INT; npm install && npm start; exit'']"
proof -
  have c: "CommandData.commands exRun = Some [''npm install'', ''npm start'']"
          "CommandData.commands exRunClose = Some [''npm install'', ''npm start'']"
    by (simp_all add: exRun_def exRunClose_def action_def)
  have n: "[''npm install'', ''npm start''] \<noteq> []" by simp
  have e: "externalTerminal exRun \<noteq> Some True" "externalTerminal exRunClose \<noteq> Some True"
    by (simp_all add: exRun_def exRunClose_def action_def)
  have a: "autoClose exRun \<noteq> Some True" "autoClose exRunClose = Some True"
    by (simp_all add: exRun_def exRunClose_def action_def)
  show ?thesis
    using internal_terminal_text [OF c(1) n e(1), of "''win32''"]
          internal_terminal_text [OF c(1) n e(1), of "''linux''"]
          internal_terminal_text [OF c(2) n e(2), of "''win32''"]
          internal_terminal_text [OF c(2) n e(2), of "''darwin''"] a
    by (simp add: cmdJoined_def psJoined_def)
qed

section \<open>Deprecated fields\<close>

text \<open>
  C7, as stated: an action that has only the deprecated \<open>url\<close> field gets the
  one-element list that wraps it, and an action that has only the deprecated
  \<open>program\<close> field gets the one-element program list. For the empty string neither
  list has an element.
\<close>

theorem legacy_url_counterexample:
  "effectiveUrls exEmptyLegacy \<noteq> [\<lparr>UrlItem.url = [], external = None\<rparr>] \<and>
   effectivePrograms exEmptyLegacy \<noteq> [([], None)]"
  by code_simp

text \<open>
  C7, amended: an action with a \<open>urls\<close> array has that array as its URL list, and an
  action with a \<open>programs\<close> array has that array as its program list. An action with
  no \<open>urls\<close> array and a non-empty deprecated \<open>url\<close> has the one-element list that
  wraps it, and a run opens that one URL in the embedded browser. An action with no
  \<open>programs\<close> array and a non-empty deprecated \<open>program\<close> has a one-element
  program list whose path is \<open>program\<close> and whose argument string is the tokens of
  \<open>args\<close> joined with a space (empty without \<open>args\<close>); a run launches what the
  action with that one-element \<open>programs\<close> array launches. An absent or empty-string
  \<open>url\<close> gives the empty URL list and a run opens nothing; an absent or empty-string
  \<open>program\<close> gives the empty program list and a run launches nothing.
\<close>

theorem legacy_normalization:
  "(urls a = Some us \<longrightarrow> effectiveUrls a = us) \<and>
   (programs a = Some ps \<longrightarrow>
      effectivePrograms a = map (\<lambda>p. (path p, map_option ArgsString (ProgramItem.args p))) ps) \<and>
   (urls a = None \<and> CommandData.url a = Some u \<and> u \<noteq> [] \<longrightarrow>
      effectiveUrls a = [\<lparr>UrlItem.url = u, external = None\<rparr>] \<and>
      runUrls platform a = [SimpleBrowserShow u]) \<and>
   (programs a = None \<and> program a = Some p \<and> p \<noteq> [] \<longrightarrow>
      map (\<lambda>prog. (fst prog, argsStr prog)) (effectivePrograms a) =
        [(p, case CommandData.args a of None \<Rightarrow> [] | Some ts \<Rightarrow> join '' '' ts)] \<and>
      runPrograms a =
        [Exec ((if CHR '' '' \<in> set p then [CHR 0x22] @ p @ [CHR 0x22] else p) @
               (case CommandData.args a of
                  None \<Rightarrow> []
                | Some ts \<Rightarrow> if join '' '' ts \<noteq> [] then '' '' @ join '' '' ts else []))] \<and>
      runPrograms a =
        runPrograms (a\<lparr>programs :=
          Some [\<lparr>path = p, ProgramItem.args = map_option (join '' '') (CommandData.args a)\<rparr>]\<rparr>)) \<and>
   (urls a = None \<and> (CommandData.url a = None \<or> CommandData.url a = Some []) \<longrightarrow>
      effectiveUrls a = [] \<and> runUrls platform a = []) \<and>
   (programs a = None \<and> (program a = None \<or> program a = Some []) \<longrightarrow>
      effectivePrograms a = [] \<and> runPrograms a = [])"
  by (auto simp: effectiveUrls_def effectivePrograms_def argsStr_def runPrograms_def fullCmd_def
        runUrls_def split: option.splits)

theorem legacy_normalization_witness:
  "effectiveUrls exNew = [\<lparr>UrlItem.url = ''http://new'', external = Some True\<rparr>] \<and>
   effectivePrograms exNew = [(''code'', Some (ArgsString ''.''))] \<and>
   effectiveUrls exLegacy = [\<lparr>UrlItem.url = ''http://localhost:3000'', external = None\<rparr>] \<and>
   runUrls ''linux'' exLegacy = [SimpleBrowserShow ''http://localhost:3000''] \<and>
   map (\<lambda>prog. (fst prog, argsStr prog)) (effectivePrograms exLegacy) =
     [(''C:/Program Files/app.exe'', ''--fast x.sln'')] \<and>
   runPrograms exLegacy =
     [Exec ([CHR 0x22] @ ''C:/Program Files/app.exe'' @ [CHR 0x22] @ '' --fast x.sln'')] \<and>
   effectiveUrls exEmptyLegacy = [] \<and> runUrls ''linux'' exEmptyLegacy = [] \<and>
   effectivePrograms exEmptyLegacy = [] \<and> runPrograms exEmptyLegacy = []"
proof -
  have b: "urls exNew = Some [\<lparr>UrlItem.url = ''http://new'', external = Some True\<rparr>]"
          "programs exNew = Some [\<lparr>path = ''code'', ProgramItem.args = Some ''.''\<rparr>]"
    by (simp_all add: exNew_def)
  have l: "urls exLegacy = None \<and> CommandData.url exLegacy = Some ''http://localhost:3000'' \<and>
           ''http://localhost:3000'' \<noteq> []"
          "programs exLegacy = None \<and> program exLegacy = Some ''C:/Program Files/app.exe'' \<and>
           ''C:/Program Files/app.exe'' \<noteq> []"
          "CommandData.args exLegacy = Some [''--fast'', ''x.sln'']"
    by (simp_all add: exLegacy_def action_def)
  have e: "urls exEmptyLegacy = None \<and>
           (CommandData.url exEmptyLegacy = None \<or> CommandData.url exEmptyLegacy = Some [])"
          "programs exEmptyLegacy = None \<and>
           (program exEmptyLegacy = None \<or> program exEmptyLegacy = Some [])"
    by (simp_all add: exEmptyLegacy_def action_def)
  show ?thesis
    using legacy_normalization
            [where a = exNew
               and us = "[\<lparr>UrlItem.url = ''http://new'', external = Some True\<rparr>]"
               and ps = "[\<lparr>path = ''code'', ProgramItem.args = Some ''.''\<rparr>]"]
          legacy_normalization
            [where a = exLegacy and u = "''http://localhost:3000''"
               and p = "''C:/Program Files/app.exe''" and platform = "''linux''"]
          legacy_normalization [where a = exEmptyLegacy and platform = "''linux''"]
          b l e
    by simp
qed

section \<open>Array fields beside their deprecated counterparts\<close>

lemma matchesSearch_url:
  "urls a = Some us \<Longrightarrow>
   matchesSearch toLowerCase st (a\<lparr>CommandData.url := u\<rparr>) = matchesSearch toLowerCase st a"
  by (simp add: matchesSearch_def cong: option.case_cong)

lemma matchesSearch_program:
  "programs a = Some ps \<Longrightarrow>
   matchesSearch toLowerCase st (a\<lparr>program := p, CommandData.args := g\<rparr>) =
     matchesSearch toLowerCase st a"
  by (simp add: matchesSearch_def cong: option.case_cong)

text \<open>What the search match tests, with the URL list and the program list it builds.\<close>

lemma matchesSearch_iff:
  "matchesSearch toLowerCase st a \<longleftrightarrow>
     searchFilter st = [] \<or>
     includesStr (toLowerCase (name a)) (searchFilter st) \<or>
     (\<exists>g. group a = Some g \<and> g \<noteq> [] \<and> includesStr (toLowerCase g) (searchFilter st)) \<or>
     (\<exists>cs. CommandData.commands a = Some cs \<and>
           (\<exists>c\<in>set cs. includesStr (toLowerCase c) (searchFilter st))) \<or>
     (\<exists>x\<in>set (case urls a of
                   Some us \<Rightarrow> us
                 | None \<Rightarrow>
                     (case CommandData.url a of
                        None \<Rightarrow> []
                      | Some u \<Rightarrow>
                          if u \<noteq> [] then [\<lparr>UrlItem.url = u, external = None\<rparr>] else [])).
        includesStr (toLowerCase (UrlItem.url x)) (searchFilter st)) \<or>
     (\<exists>x\<in>set (case programs a of
                   Some ps \<Rightarrow> ps
                 | None \<Rightarrow>
                     (case program a of
                        None \<Rightarrow> []
                      | Some p \<Rightarrow>
                          if p \<noteq> [] then [\<lparr>path = p, ProgramItem.args = None\<rparr>] else [])).
        includesStr (toLowerCase (path x)) (searchFilter st))"
  by (cases "group a"; cases "CommandData.commands a")
     (auto simp: matchesSearch_def Let_def list_ex_iff)

lemma tooltipUrls_url: "urls a = Some us \<Longrightarrow> tooltipUrls (a\<lparr>CommandData.url := u\<rparr>) = us"
  by (simp add: tooltipUrls_def)

lemma tooltipUrls_same: "urls a = Some us \<Longrightarrow> tooltipUrls a = us"
  by (simp add: tooltipUrls_def)

lemma tooltipPrograms_url: "tooltipPrograms (a\<lparr>CommandData.url := u\<rparr>) = tooltipPrograms a"
  by (auto simp: tooltipPrograms_def split: option.splits)

lemma tooltipPrograms_program:
  "programs a = Some ps \<Longrightarrow> tooltipPrograms (a\<lparr>program := p, CommandData.args := g\<rparr>) = ps"
  by (simp add: tooltipPrograms_def)

lemma tooltipPrograms_same: "programs a = Some ps \<Longrightarrow> tooltipPrograms a = ps"
  by (simp add: tooltipPrograms_def)

lemma tooltipUrls_program:
  "tooltipUrls (a\<lparr>program := p, CommandData.args := g\<rparr>) = tooltipUrls a"
  by (simp add: tooltipUrls_def cong: option.case_cong)

lemma effectiveUrls_url: "urls a = Some us \<Longrightarrow> effectiveUrls (a\<lparr>CommandData.url := u\<rparr>) = us"
  by (simp add: effectiveUrls_def)

lemma effectiveUrls_same: "urls a = Some us \<Longrightarrow> effectiveUrls a = us"
  by (simp add: effectiveUrls_def)

lemma effectivePrograms_url:
  "effectivePrograms (a\<lparr>CommandData.url := u\<rparr>) = effectivePrograms a"
  by (auto simp: effectivePrograms_def split: option.splits)

lemma effectivePrograms_program:
  "programs a = Some ps \<Longrightarrow>
   effectivePrograms (a\<lparr>program := p, CommandData.args := g\<rparr>) =
     map (\<lambda>p. (path p, map_option ArgsString (ProgramItem.args p))) ps"
  by (simp add: effectivePrograms_def)

lemma effectivePrograms_same:
  "programs a = Some ps \<Longrightarrow>
   effectivePrograms a = map (\<lambda>p. (path p, map_option ArgsString (ProgramItem.args p))) ps"
  by (simp add: effectivePrograms_def)

lemma effectiveUrls_program:
  "effectiveUrls (a\<lparr>program := p, CommandData.args := g\<rparr>) = effectiveUrls a"
  by (simp add: effectiveUrls_def cong: option.case_cong)

lemma runTerminal_url:
  "runTerminal platform (a\<lparr>CommandData.url := u\<rparr>) = runTerminal platform a"
  by (auto simp: runTerminal_def Let_def)

lemma runTerminal_program:
  "runTerminal platform (a\<lparr>program := p, CommandData.args := g\<rparr>) = runTerminal platform a"
  by (auto simp: runTerminal_def Let_def)

lemma run_url:
  "urls a = Some us \<Longrightarrow> run platform (a\<lparr>CommandData.url := u\<rparr>) = run platform a"
  by (simp add: run_def runTerminal_url runUrls_def runPrograms_def effectiveUrls_url
        effectiveUrls_same effectivePrograms_url)

lemma run_program:
  "programs a = Some ps \<Longrightarrow>
   run platform (a\<lparr>program := p, CommandData.args := g\<rparr>) = run platform a"
  by (simp add: run_def runTerminal_program runUrls_def runPrograms_def effectivePrograms_program
        effectivePrograms_same effectiveUrls_program)

lemma tooltip_url:
  "urls a = Some us \<Longrightarrow>
   tooltip (a\<lparr>CommandData.url := u\<rparr>) = tooltip a \<and>
   iconPath (a\<lparr>CommandData.url := u\<rparr>) = iconPath a"
  by (auto simp: tooltip_def iconPath_def tooltipUrls_url tooltipUrls_same tooltipPrograms_url
        Let_def)

lemma tooltip_program:
  "programs a = Some ps \<Longrightarrow>
   tooltip (a\<lparr>program := p, CommandData.args := g\<rparr>) = tooltip a \<and>
   iconPath (a\<lparr>program := p, CommandData.args := g\<rparr>) = iconPath a"
  by (auto simp: tooltip_def iconPath_def tooltipPrograms_program tooltipPrograms_same
        tooltipUrls_program Let_def)

text \<open>Without the delays, the loop over the URL list issues one call for each element.\<close>

lemma openUrls_opens:
  "filter (\<lambda>e. e \<noteq> Delay 100) (openUrls platform i us) =
   map (\<lambda>x. if external x = Some True
            then Exec (if platform = ''win32''
                       then ''start '' @ [CHR 0x22, CHR 0x22] @ '' '' @
                            [CHR 0x22] @ UrlItem.url x @ [CHR 0x22]
                       else if platform = ''darwin''
                       then ''open '' @ [CHR 0x22] @ UrlItem.url x @ [CHR 0x22]
                       else ''xdg-open '' @ [CHR 0x22] @ UrlItem.url x @ [CHR 0x22])
            else SimpleBrowserShow (UrlItem.url x)) us"
  by (induction us arbitrary: i) auto

lemma run_urls_array:
  "urls a = Some us \<Longrightarrow>
   run platform a = runTerminal platform a @ openUrls platform 0 us @ runPrograms a"
  by (simp add: run_def runUrls_def effectiveUrls_same)

lemma runPrograms_array:
  "programs a = Some ps \<Longrightarrow>
   runPrograms a =
     map (\<lambda>x. Exec ((if CHR '' '' \<in> set (path x) then [CHR 0x22] @ path x @ [CHR 0x22]
                     else path x) @
                    (case ProgramItem.args x of
                       None \<Rightarrow> []
                     | Some s \<Rightarrow> if s \<noteq> [] then '' '' @ s else []))) ps"
  by (auto simp: runPrograms_def effectivePrograms_same fullCmd_def argsStr_def Let_def
        split: option.splits)

lemma tooltip_lines:
  "tooltip a =
     join [CHR 0x0A]
       ((case CommandData.commands a of None \<Rightarrow> [] | Some cs \<Rightarrow> cs) @
        map (\<lambda>x. linkSymbol @ '' '' @ UrlItem.url x @
                  (if external x = Some True then '' (external)'' else []))
          (tooltipUrls a) @
        map (\<lambda>x. gearSymbol @ '' '' @ path x @
                  (case ProgramItem.args x of
                     None \<Rightarrow> []
                   | Some s \<Rightarrow> if s \<noteq> [] then '' '' @ s else []))
          (tooltipPrograms a))"
  by (auto simp: tooltip_def hasLength_def Let_def split: option.splits)

text \<open>
  C9. For an action with a \<open>urls\<close> array, whatever its deprecated \<open>url\<close> field
  holds: a run issues the terminal effects, then the calls of the loop over the array
  (one call for each element of the array, in order, besides the delays), then the
  program launches; the search match tests the name, the group, the commands, the URLs
  of the array and the program paths; the tooltip is made of the command lines, one line
  for each element of the array and the program lines; the icon depends on whether the
  array is empty. For an action with a \<open>programs\<close> array, whatever its deprecated
  \<open>program\<close> and \<open>args\<close> fields hold: a run ends with one launch for each
  element of the array, in order; the search match tests the paths of the array; the
  tooltip ends with one line for each element of the array. In both cases the value of
  the deprecated field changes none of these results.
\<close>

theorem array_fields_take_precedence:
  "(urls a = Some us \<longrightarrow>
      run platform (a\<lparr>CommandData.url := u\<rparr>) =
        runTerminal platform a @ openUrls platform 0 us @ runPrograms a \<and>
      filter (\<lambda>e. e \<noteq> Delay 100) (runUrls platform (a\<lparr>CommandData.url := u\<rparr>)) =
        map (\<lambda>x. if external x = Some True
                 then Exec (if platform = ''win32''
                            then ''start '' @ [CHR 0x22, CHR 0x22] @ '' '' @
                                 [CHR 0x22] @ UrlItem.url x @ [CHR 0x22]
                            else if platform = ''darwin''
                            then ''open '' @ [CHR 0x22] @ UrlItem.url x @ [CHR 0x22]
                            else ''xdg-open '' @ [CHR 0x22] @ UrlItem.url x @ [CHR 0x22])
                 else SimpleBrowserShow (UrlItem.url x)) us \<and>
      (matchesSearch toLowerCase st (a\<lparr>CommandData.url := u\<rparr>) \<longleftrightarrow>
         searchFilter st = [] \<or>
         includesStr (toLowerCase (name a)) (searchFilter st) \<or>
         (\<exists>g. group a = Some g \<and> g \<noteq> [] \<and> includesStr (toLowerCase g) (searchFilter st)) \<or>
         (\<exists>cs. CommandData.commands a = Some cs \<and>
               (\<exists>c\<in>set cs. includesStr (toLowerCase c) (searchFilter st))) \<or>
         (\<exists>x\<in>set us. includesStr (toLowerCase (UrlItem.url x)) (searchFilter st)) \<or>
         (\<exists>x\<in>set (case programs a of
                       Some ps \<Rightarrow> ps
                     | None \<Rightarrow>
                         (case program a of
                            None \<Rightarrow> []
                          | Some p \<Rightarrow>
                              if p \<noteq> [] then [\<lparr>path = p, ProgramItem.args = None\<rparr>] else [])).
            includesStr (toLowerCase (path x)) (searchFilter st))) \<and>
      tooltip (a\<lparr>CommandData.url := u\<rparr>) =
        join [CHR 0x0A]
          ((case CommandData.commands a of None \<Rightarrow> [] | Some cs \<Rightarrow> cs) @
           map (\<lambda>x. linkSymbol @ '' '' @ UrlItem.url x @
                     (if external x = Some True then '' (external)'' else [])) us @
           map (\<lambda>x. gearSymbol @ '' '' @ path x @
                     (case ProgramItem.args x of
                        None \<Rightarrow> []
                      | Some s \<Rightarrow> if s \<noteq> [] then '' '' @ s else []))
             (tooltipPrograms a)) \<and>
      iconPath (a\<lparr>CommandData.url := u\<rparr>) =
        (if us \<noteq> [] \<and> \<not> hasLength (CommandData.commands a) then ''link-external''
         else if hasLength (CommandData.commands a) \<and> us \<noteq> [] then ''run-all''
         else ''terminal'') \<and>
      effectiveUrls (a\<lparr>CommandData.url := u\<rparr>) = us \<and>
      tooltipUrls (a\<lparr>CommandData.url := u\<rparr>) = us \<and>
      run platform (a\<lparr>CommandData.url := u\<rparr>) = run platform a \<and>
      matchesSearch toLowerCase st (a\<lparr>CommandData.url := u\<rparr>) =
        matchesSearch toLowerCase st a \<and>
      tooltip (a\<lparr>CommandData.url := u\<rparr>) = tooltip a \<and>
      iconPath (a\<lparr>CommandData.url := u\<rparr>) = iconPath a) \<and>
   (programs a = Some ps \<longrightarrow>
      run platform (a\<lparr>program := p, CommandData.args := g\<rparr>) =
        runTerminal platform a @ runUrls platform a @
        map (\<lambda>x. Exec ((if CHR '' '' \<in> set (path x) then [CHR 0x22] @ path x @ [CHR 0x22]
                        else path x) @
                       (case ProgramItem.args x of
                          None \<Rightarrow> []
                        | Some s \<Rightarrow> if s \<noteq> [] then '' '' @ s else []))) ps \<and>
      (matchesSearch toLowerCase st (a\<lparr>program := p, CommandData.args := g\<rparr>) \<longleftrightarrow>
         searchFilter st = [] \<or>
         includesStr (toLowerCase (name a)) (searchFilter st) \<or>
         (\<exists>g. group a = Some g \<and> g \<noteq> [] \<and> includesStr (toLowerCase g) (searchFilter st)) \<or>
         (\<exists>cs. CommandData.commands a = Some cs \<and>
               (\<exists>c\<in>set cs. includesStr (toLowerCase c) (searchFilter st))) \<or>
         (\<exists>x\<in>set (case urls a of
                       Some us \<Rightarrow> us
                     | None \<Rightarrow>
                         (case CommandData.url a of
                            None \<Rightarrow> []
                          | Some u \<Rightarrow>
                              if u \<noteq> [] then [\<lparr>UrlItem.url = u, external = None\<rparr>] else [])).
            includesStr (toLowerCase (UrlItem.url x)) (searchFilter st)) \<or>
         (\<exists>x\<in>set ps. includesStr (toLowerCase (path x)) (searchFilter st))) \<and>
      tooltip (a\<lparr>program := p, CommandData.args := g\<rparr>) =
        join [CHR 0x0A]
          ((case CommandData.commands a of None \<Rightarrow> [] | Some cs \<Rightarrow> cs) @
           map (\<lambda>x. linkSymbol @ '' '' @ UrlItem.url x @
                     (if external x = Some True then '' (external)'' else []))
             (tooltipUrls a) @
           map (\<lambda>x. gearSymbol @ '' '' @ path x @
                     (case ProgramItem.args x of
                        None \<Rightarrow> []
                      | Some s \<Rightarrow> if s \<noteq> [] then '' '' @ s else [])) ps) \<and>
      effectivePrograms (a\<lparr>program := p, CommandData.args := g\<rparr>) =
        map (\<lambda>p. (path p, map_option ArgsString (ProgramItem.args p))) ps \<and>
      tooltipPrograms (a\<lparr>program := p, CommandData.args := g\<rparr>) = ps \<and>
      run platform (a\<lparr>program := p, CommandData.args := g\<rparr>) = run platform a \<and>
      matchesSearch toLowerCase st (a\<lparr>program := p, CommandData.args := g\<rparr>) =
        matchesSearch toLowerCase st a \<and>
      tooltip (a\<lparr>program := p, CommandData.args := g\<rparr>) = tooltip a \<and>
      iconPath (a\<lparr>program := p, CommandData.args := g\<rparr>) = iconPath a)"
proof (intro conjI impI)
  assume u: "urls a = Some us"
  show "run platform (a\<lparr>CommandData.url := u\<rparr>) =
          runTerminal platform a @ openUrls platform 0 us @ runPrograms a"
    using run_url [OF u] run_urls_array [OF u] by simp
  show "filter (\<lambda>e. e \<noteq> Delay 100) (runUrls platform (a\<lparr>CommandData.url := u\<rparr>)) =
        map (\<lambda>x. if external x = Some True
                 then Exec (if platform = ''win32''
                            then ''start '' @ [CHR 0x22, CHR 0x22] @ '' '' @
                                 [CHR 0x22] @ UrlItem.url x @ [CHR 0x22]
                            else if platform = ''darwin''
                            then ''open '' @ [CHR 0x22] @ UrlItem.url x @ [CHR 0x22]
                            else ''xdg-open '' @ [CHR 0x22] @ UrlItem.url x @ [CHR 0x22])
                 else SimpleBrowserShow (UrlItem.url x)) us"
    unfolding runUrls_def effectiveUrls_url [OF u] by (rule openUrls_opens)
  show "matchesSearch toLowerCase st (a\<lparr>CommandData.url := u\<rparr>) \<longleftrightarrow>
         searchFilter st = [] \<or>
         includesStr (toLowerCase (name a)) (searchFilter st) \<or>
         (\<exists>g. group a = Some g \<and> g \<noteq> [] \<and> includesStr (toLowerCase g) (searchFilter st)) \<or>
         (\<exists>cs. CommandData.commands a = Some cs \<and>
               (\<exists>c\<in>set cs. includesStr (toLowerCase c) (searchFilter st))) \<or>
         (\<exists>x\<in>set us. includesStr (toLowerCase (UrlItem.url x)) (searchFilter st)) \<or>
         (\<exists>x\<in>set (case programs a of
                       Some ps \<Rightarrow> ps
                     | None \<Rightarrow>
                         (case program a of
                            None \<Rightarrow> []
                          | Some p \<Rightarrow>
                              if p \<noteq> [] then [\<lparr>path = p, ProgramItem.args = None\<rparr>] else [])).
            includesStr (toLowerCase (path x)) (searchFilter st))"
    unfolding matchesSearch_url [OF u] using matchesSearch_iff [of toLowerCase st a] u by simp
  show "tooltip (a\<lparr>CommandData.url := u\<rparr>) =
        join [CHR 0x0A]
          ((case CommandData.commands a of None \<Rightarrow> [] | Some cs \<Rightarrow> cs) @
           map (\<lambda>x. linkSymbol @ '' '' @ UrlItem.url x @
                     (if external x = Some True then '' (external)'' else [])) us @
           map (\<lambda>x. gearSymbol @ '' '' @ path x @
                     (case ProgramItem.args x of
                        None \<Rightarrow> []
                      | Some s \<Rightarrow> if s \<noteq> [] then '' '' @ s else []))
             (tooltipPrograms a))"
    using tooltip_url [OF u, of u] tooltip_lines [of a] tooltipUrls_same [OF u] by simp
  show "iconPath (a\<lparr>CommandData.url := u\<rparr>) =
        (if us \<noteq> [] \<and> \<not> hasLength (CommandData.commands a) then ''link-external''
         else if hasLength (CommandData.commands a) \<and> us \<noteq> [] then ''run-all''
         else ''terminal'')"
    using tooltip_url [OF u, of u] tooltipUrls_same [OF u] by (simp add: iconPath_def)
  show "effectiveUrls (a\<lparr>CommandData.url := u\<rparr>) = us" by (rule effectiveUrls_url [OF u])
  show "tooltipUrls (a\<lparr>CommandData.url := u\<rparr>) = us" by (rule tooltipUrls_url [OF u])
  show "run platform (a\<lparr>CommandData.url := u\<rparr>) = run platform a" by (rule run_url [OF u])
  show "matchesSearch toLowerCase st (a\<lparr>CommandData.url := u\<rparr>) =
        matchesSearch toLowerCase st a"
    by (rule matchesSearch_url [OF u])
  show "tooltip (a\<lparr>CommandData.url := u\<rparr>) = tooltip a"
    using tooltip_url [OF u] by simp
  show "iconPath (a\<lparr>CommandData.url := u\<rparr>) = iconPath a"
    using tooltip_url [OF u] by simp
next
  assume p: "programs a = Some ps"
  show "run platform (a\<lparr>program := p, CommandData.args := g\<rparr>) =
        runTerminal platform a @ runUrls platform a @
        map (\<lambda>x. Exec ((if CHR '' '' \<in> set (path x) then [CHR 0x22] @ path x @ [CHR 0x22]
                        else path x) @
                       (case ProgramItem.args x of
                          None \<Rightarrow> []
                        | Some s \<Rightarrow> if s \<noteq> [] then '' '' @ s else []))) ps"
    using run_program [OF p, where platform = platform and p = p and g = g]
          runPrograms_array [OF p]
    by (simp add: run_def)
  show "matchesSearch toLowerCase st (a\<lparr>program := p, CommandData.args := g\<rparr>) \<longleftrightarrow>
         searchFilter st = [] \<or>
         includesStr (toLowerCase (name a)) (searchFilter st) \<or>
         (\<exists>g. group a = Some g \<and> g \<noteq> [] \<and> includesStr (toLowerCase g) (searchFilter st)) \<or>
         (\<exists>cs. CommandData.commands a = Some cs \<and>
               (\<exists>c\<in>set cs. includesStr (toLowerCase c) (searchFilter st))) \<or>
         (\<exists>x\<in>set (case urls a of
                       Some us \<Rightarrow> us
                     | None \<Rightarrow>
                         (case CommandData.url a of
                            None \<Rightarrow> []
                          | Some u \<Rightarrow>
                              if u \<noteq> [] then [\<lparr>UrlItem.url = u, external = None\<rparr>] else [])).
            includesStr (toLowerCase (UrlItem.url x)) (searchFilter st)) \<or>
         (\<exists>x\<in>set ps. includesStr (toLowerCase (path x)) (searchFilter st))"
    unfolding matchesSearch_program [OF p] using matchesSearch_iff [of toLowerCase st a] p by simp
  show "tooltip (a\<lparr>program := p, CommandData.args := g\<rparr>) =
        join [CHR 0x0A]
          ((case CommandData.commands a of None \<Rightarrow> [] | Some cs \<Rightarrow> cs) @
           map (\<lambda>x. linkSymbol @ '' '' @ UrlItem.url x @
                     (if external x = Some True then '' (external)'' else []))
             (tooltipUrls a) @
           map (\<lambda>x. gearSymbol @ '' '' @ path x @
                     (case ProgramItem.args x of
                        None \<Rightarrow> []
                      | Some s \<Rightarrow> if s \<noteq> [] then '' '' @ s else [])) ps)"
    using tooltip_program [OF p, where p = p and g = g] tooltip_lines [of a]
          tooltipPrograms_same [OF p]
    by simp
  show "effectivePrograms (a\<lparr>program := p, CommandData.args := g\<rparr>) =
        map (\<lambda>p. (path p, map_option ArgsString (ProgramItem.args p))) ps"
    by (rule effectivePrograms_program [OF p])
  show "tooltipPrograms (a\<lparr>program := p, CommandData.args := g\<rparr>) = ps"
    by (rule tooltipPrograms_program [OF p])
  show "run platform (a\<lparr>program := p, CommandData.args := g\<rparr>) = run platform a"
    by (rule run_program [OF p])
  show "matchesSearch toLowerCase st (a\<lparr>program := p, CommandData.args := g\<rparr>) =
        matchesSearch toLowerCase st a"
    by (rule matchesSearch_program [OF p])
  show "tooltip (a\<lparr>program := p, CommandData.args := g\<rparr>) = tooltip a"
    using tooltip_program [OF p] by simp
  show "iconPath (a\<lparr>program := p, CommandData.args := g\<rparr>) = iconPath a"
    using tooltip_program [OF p] by simp
qed

theorem array_fields_take_precedence_witness:
  "run ''win32'' exBoth =
     [Exec (''start '' @ [CHR 0x22, CHR 0x22] @ '' '' @ [CHR 0x22] @ ''http://new'' @ [CHR 0x22]),
      Exec ''code .''] \<and>
   matchesSearch lowerAscii (provider []\<lparr>searchFilter := ''localhost''\<rparr>) exBoth = False \<and>
   matchesSearch lowerAscii (provider []\<lparr>searchFilter := ''new''\<rparr>) exBoth = True \<and>
   tooltip exBoth =
     linkSymbol @ '' http://new (external)'' @ [CHR 0x0A] @ gearSymbol @ '' code .''"
proof -
  let ?mid = "exNew\<lparr>CommandData.url := Some ''http://localhost:3000''\<rparr>"
  let ?st1 = "provider []\<lparr>searchFilter := ''localhost''\<rparr>"
  let ?st2 = "provider []\<lparr>searchFilter := ''new''\<rparr>"
  have e: "exBoth = ?mid\<lparr>program := Some ''C:/Program Files/app.exe'',
                          CommandData.args := Some [''--fast'', ''x.sln'']\<rparr>"
    by (simp add: exBoth_def)
  have u: "urls exNew = Some [\<lparr>UrlItem.url = ''http://new'', external = Some True\<rparr>]"
    and p: "programs ?mid = Some [\<lparr>path = ''code'', ProgramItem.args = Some ''.''\<rparr>]"
    by (simp_all add: exNew_def)
  note U1 = array_fields_take_precedence
              [where a = exNew and u = "Some ''http://localhost:3000''"
                 and us = "[\<lparr>UrlItem.url = ''http://new'', external = Some True\<rparr>]"
                 and platform = "''win32''" and toLowerCase = lowerAscii and st = ?st1,
               THEN conjunct1, THEN mp, OF u]
  note U2 = array_fields_take_precedence
              [where a = exNew and u = "Some ''http://localhost:3000''"
                 and us = "[\<lparr>UrlItem.url = ''http://new'', external = Some True\<rparr>]"
                 and platform = "''win32''" and toLowerCase = lowerAscii and st = ?st2,
               THEN conjunct1, THEN mp, OF u]
  note P1 = array_fields_take_precedence
              [where a = ?mid and ps = "[\<lparr>path = ''code'', ProgramItem.args = Some ''.''\<rparr>]"
                 and p = "Some ''C:/Program Files/app.exe''"
                 and g = "Some [''--fast'', ''x.sln'']"
                 and platform = "''win32''" and toLowerCase = lowerAscii and st = ?st1,
               THEN conjunct2, THEN mp, OF p]
  note P2 = array_fields_take_precedence
              [where a = ?mid and ps = "[\<lparr>path = ''code'', ProgramItem.args = Some ''.''\<rparr>]"
                 and p = "Some ''C:/Program Files/app.exe''"
                 and g = "Some [''--fast'', ''x.sln'']"
                 and platform = "''win32''" and toLowerCase = lowerAscii and st = ?st2,
               THEN conjunct2, THEN mp, OF p]
  have r1: "run ''win32'' ?mid = run ''win32'' exNew" using U1 by blast
  have r2: "run ''win32'' exBoth = run ''win32'' ?mid" unfolding e using P1 by blast
  have m1: "matchesSearch lowerAscii ?st1 ?mid = matchesSearch lowerAscii ?st1 exNew"
    using U1 by blast
  have m2: "matchesSearch lowerAscii ?st1 exBoth = matchesSearch lowerAscii ?st1 ?mid"
    unfolding e using P1 by blast
  have m3: "matchesSearch lowerAscii ?st2 ?mid = matchesSearch lowerAscii ?st2 exNew"
    using U2 by blast
  have m4: "matchesSearch lowerAscii ?st2 exBoth = matchesSearch lowerAscii ?st2 ?mid"
    unfolding e using P2 by blast
  have t1: "tooltip ?mid = tooltip exNew" using U1 by blast
  have t2: "tooltip exBoth = tooltip ?mid" unfolding e using P1 by blast
  have r: "run ''win32'' exNew =
     [Exec (''start '' @ [CHR 0x22, CHR 0x22] @ '' '' @ [CHR 0x22] @ ''http://new'' @ [CHR 0x22]),
      Exec ''code .'']"
    by code_simp
  have m: "matchesSearch lowerAscii ?st1 exNew = False"
          "matchesSearch lowerAscii ?st2 exNew = True"
    by code_simp+
  have t: "tooltip exNew =
     linkSymbol @ '' http://new (external)'' @ [CHR 0x0A] @ gearSymbol @ '' code .''"
    by code_simp
  show ?thesis
    unfolding r2 r1 m2 m1 m4 m3 t2 t1 using r m t by simp
qed

end
